theory Spec2Isabelle
  imports Main
begin

section \<open>Data model\<close>

text \<open>
  The script \<^verbatim>\<open>usaid_pdf2sheet.py\<close> reads the pages of a PDF, takes the table
  that \<^verbatim>\<open>page.extract_table()\<close> finds on each page, appends its rows to one list,
  builds a data frame whose column labels are the first row, and writes that frame as a
  CSV file and as a spreadsheet.

  A cell of an extracted table is a Python \<^verbatim>\<open>str\<close> or \<^verbatim>\<open>None\<close>; a row is a list
  of cells; a table is a list of rows. \<^verbatim>\<open>extract_table\<close> returns a table or
  \<^verbatim>\<open>None\<close>.
\<close>

type_synonym cell = "string option"
type_synonym row = "cell list"
type_synonym table = "row list"

datatype py_error = IndexError | ValueError

section \<open>Aggregation (lines 4 to 9)\<close>

text \<open>
  \<^verbatim>\<open>
  all_rows = []
  for page in pdf.pages:
      table = page.extract_table()
      if table:
          all_rows.extend(table)
  \<close>
  The table detector belongs to the PDF library, so it is a parameter
  \<open>extract_table\<close> of the model. Python's truth test \<^verbatim>\<open>if table:\<close> is false for
  \<^verbatim>\<open>None\<close> and for the empty list.
\<close>

definition truthy :: "table option \<Rightarrow> bool" where
  "truthy table = (case table of None \<Rightarrow> False | Some rs \<Rightarrow> rs \<noteq> [])"

fun extend_pages :: "('page \<Rightarrow> table option) \<Rightarrow> 'page list \<Rightarrow> row list \<Rightarrow> row list" where
  "extend_pages extract_table [] all_rows = all_rows"
| "extend_pages extract_table (page # pages) all_rows =
     (let table = extract_table page in
      if truthy table
      then (case table of
              Some rs \<Rightarrow> extend_pages extract_table pages (all_rows @ rs)
            | None \<Rightarrow> extend_pages extract_table pages all_rows)
      else extend_pages extract_table pages all_rows)"

definition all_rows :: "('page \<Rightarrow> table option) \<Rightarrow> 'page list \<Rightarrow> row list" where
  "all_rows extract_table pages = extend_pages extract_table pages []"

text \<open>
  The aggregate in the words of the specification: the tables that were detected, in
  page order, one after the other.
\<close>

definition detected_tables :: "('page \<Rightarrow> table option) \<Rightarrow> 'page list \<Rightarrow> table list" where
  "detected_tables extract_table pages = List.map_filter extract_table pages"

definition spec_aggregate :: "('page \<Rightarrow> table option) \<Rightarrow> 'page list \<Rightarrow> row list" where
  "spec_aggregate extract_table pages = concat (detected_tables extract_table pages)"

section \<open>Structuring (line 12)\<close>

text \<open>
  \<^verbatim>\<open>
  df = pd.DataFrame(all_rows[1:], columns=all_rows[0])  # First row as header
  \<close>
  Python evaluates the arguments from left to right: the slice \<^verbatim>\<open>all_rows[1:]\<close> never
  fails, the index \<^verbatim>\<open>all_rows[0]\<close> raises \<^verbatim>\<open>IndexError\<close> on the empty list, and only
  then is the constructor called. The constructor is a parameter \<open>frame\<close> of
  \<open>df_with\<close>, so that what line 12 does by itself is separate from what the data frame
  library does.
\<close>

definition getitem :: "'a list \<Rightarrow> nat \<Rightarrow> py_error + 'a" where
  "getitem xs i = (if i < length xs then Inr (xs ! i) else Inl IndexError)"

definition df_with :: "(row list \<Rightarrow> row \<Rightarrow> py_error + 'f) \<Rightarrow> row list \<Rightarrow> py_error + 'f" where
  "df_with frame rs =
     (let data = drop 1 rs in
      case getitem rs 0 of
        Inl e \<Rightarrow> Inl e
      | Inr header \<Rightarrow> frame data header)"

subsection \<open>The data frame constructor\<close>

text \<open>
  A data frame built from rows of text: its column labels and its records, every
  record as wide as the labels.

  \<open>DataFrame data cols\<close> is \<^verbatim>\<open>pd.DataFrame(data, columns=cols)\<close> for a list of
  lists. The library is a dependency of the script and is not part of its sources; the
  definition follows what the library does with such arguments:
  \<^item> no row at all gives an empty frame with the labels \<open>cols\<close>;
  \<^item> otherwise the rows are copied into an array as wide as the longest row, the
    missing cells of a shorter row staying \<^verbatim>\<open>None\<close>;
  \<^item> when the number of labels is not that width the constructor raises
    \<^verbatim>\<open>ValueError\<close> (``k columns passed, passed data had w columns'').
  Labels need not be distinct. Text cells are kept as text.
\<close>

record dataframe =
  columns :: row
  records :: "row list"

definition width :: "row list \<Rightarrow> nat" where
  "width data = fold (\<lambda>r k. if k < length r then length r else k) data 0"

definition pad :: "nat \<Rightarrow> row \<Rightarrow> row" where
  "pad k r = r @ replicate (k - length r) None"

definition DataFrame :: "row list \<Rightarrow> row \<Rightarrow> py_error + dataframe" where
  "DataFrame data cols =
     (if data = [] then Inr \<lparr>columns = cols, records = []\<rparr>
      else if length cols \<noteq> width data then Inl ValueError
      else Inr \<lparr>columns = cols, records = map (pad (width data)) data\<rparr>)"

definition df :: "row list \<Rightarrow> py_error + dataframe" where
  "df rs = df_with DataFrame rs"

section \<open>Output (lines 13 and 14)\<close>

text \<open>
  \<^verbatim>\<open>
  df.to_csv("usaid_defunded.csv", index=False)
  df.to_excel("usaid_defunded.xlsx", index=False)
  \<close>
  \<open>to_csv\<close> gives the text that the library writes with its default settings on a
  system whose line separator is the line feed: fields separated by commas, a missing
  value written as the empty field, the labels as the first record, every record ended
  by a line feed. The records go through Python's \<^verbatim>\<open>csv.writer\<close> with minimal
  quoting: a field holding a comma, a double quote, a carriage return or a line feed is
  put in double quotes with its double quotes doubled, and a record that is one empty
  field is written as two double quotes. (Interpreters before Python 3.13 leave a field
  whose only special character is a carriage return unquoted; no property below
  depends on such a field.) With \<^verbatim>\<open>index=True\<close> every record would start with its row
  number and the first record with an empty label.
\<close>

definition comma :: char where "comma = CHR 0x2C"
definition dquote :: char where "dquote = CHR 0x22"
definition CR :: char where "CR = CHR 0x0D"
definition LF :: char where "LF = CHR 0x0A"

definition cell_text :: "cell \<Rightarrow> string" where
  "cell_text c = (case c of None \<Rightarrow> [] | Some s \<Rightarrow> s)"

definition special :: "char \<Rightarrow> bool" where
  "special c = (c = comma \<or> c = dquote \<or> c = CR \<or> c = LF)"

definition quoted :: "string \<Rightarrow> string" where
  "quoted s = dquote # concat (map (\<lambda>c. if c = dquote then [dquote, dquote] else [c]) s) @ [dquote]"

definition csv_field :: "string \<Rightarrow> string" where
  "csv_field s = (if list_ex special s then quoted s else s)"

fun join :: "string list \<Rightarrow> string" where
  "join [] = []"
| "join [f] = f"
| "join (f # g # fs) = f @ comma # join (g # fs)"

definition writerow :: "string list \<Rightarrow> string" where
  "writerow flds =
     (if flds = [[]] then [dquote, dquote] else join (map csv_field flds)) @ [LF]"

function str_nat :: "nat \<Rightarrow> string" where
  "str_nat n =
     (if n < 10 then [char_of (48 + n)]
      else str_nat (n div 10) @ [char_of (48 + n mod 10)])"
  by pat_completeness auto
termination
  by (relation "measure id") auto

definition to_csv :: "dataframe \<Rightarrow> bool \<Rightarrow> string" where
  "to_csv d index =
     (let labels = map cell_text (columns d);
          body = map (map cell_text) (records d)
      in if index
         then concat (map writerow
                (([] # labels) # map (\<lambda>(i, r). str_nat i # r) (zip [0 ..< length body] body)))
         else concat (map writerow (labels # body)))"

text \<open>
  The spreadsheet writer depends on the engine that is installed, and what it stores is
  a compressed binary file, so the script takes it as a parameter \<open>excel_writer\<close>.
  \<open>to_excel\<close> is the grid of the one sheet that a writer stores for a frame it
  accepts: the labels in the first row, one row per record below, a missing value as a
  blank cell, and with \<^verbatim>\<open>index=True\<close> the row numbers in front. It is used where a run
  needs a concrete writer.
\<close>

datatype xcell = Blank | Str string | Num nat

type_synonym sheet = "xcell list list"

definition xcell_of :: "cell \<Rightarrow> xcell" where
  "xcell_of c = (case c of None \<Rightarrow> Blank | Some s \<Rightarrow> Str s)"

definition to_excel :: "dataframe \<Rightarrow> bool \<Rightarrow> sheet" where
  "to_excel d index =
     (let labels = map xcell_of (columns d);
          body = map (map xcell_of) (records d)
      in if index
         then (Blank # labels) # map (\<lambda>(i, r). Num i # r) (zip [0 ..< length body] body)
         else labels # body)"

section \<open>The script\<close>

text \<open>
  The two output paths are fixed in the source; \<open>files\<close> is what is stored under
  them, \<open>None\<close> for a path that does not exist. A run starts from some \<open>files\<close> and
  returns the exception that ended it, if any, with the \<open>files\<close> it leaves. Line 13
  runs before line 14, so a failure of the second writer leaves the first file written.
  Both writers are called with \<^verbatim>\<open>index=False\<close>. The document is given by its pages;
  opening it, and a failure of the operating system while a file is written, are not
  modelled.
\<close>

record 'x files =
  usaid_defunded_csv :: "string option"
  usaid_defunded_xlsx :: "'x option"

definition write_files ::
  "('f \<Rightarrow> bool \<Rightarrow> py_error + string) \<Rightarrow> ('f \<Rightarrow> bool \<Rightarrow> py_error + 'x) \<Rightarrow>
   'f \<Rightarrow> 'x files \<Rightarrow> py_error option \<times> 'x files" where
  "write_files csv_writer excel_writer d fs =
     (case csv_writer d False of
        Inl e \<Rightarrow> (Some e, fs)
      | Inr content \<Rightarrow>
          (case excel_writer d False of
             Inl e \<Rightarrow> (Some e, fs\<lparr>usaid_defunded_csv := Some content\<rparr>)
           | Inr book \<Rightarrow>
               (None, fs\<lparr>usaid_defunded_csv := Some content,
                         usaid_defunded_xlsx := Some book\<rparr>)))"

definition script_with ::
  "('page \<Rightarrow> table option) \<Rightarrow> (row list \<Rightarrow> row \<Rightarrow> py_error + 'f) \<Rightarrow>
   ('f \<Rightarrow> bool \<Rightarrow> py_error + string) \<Rightarrow> ('f \<Rightarrow> bool \<Rightarrow> py_error + 'x) \<Rightarrow>
   'page list \<Rightarrow> 'x files \<Rightarrow> py_error option \<times> 'x files" where
  "script_with extract_table frame csv_writer excel_writer pages fs =
     (case df_with frame (all_rows extract_table pages) of
        Inl e \<Rightarrow> (Some e, fs)
      | Inr d \<Rightarrow> write_files csv_writer excel_writer d fs)"

definition script ::
  "(dataframe \<Rightarrow> bool \<Rightarrow> py_error + 'x) \<Rightarrow> ('page \<Rightarrow> table option) \<Rightarrow>
   'page list \<Rightarrow> 'x files \<Rightarrow> py_error option \<times> 'x files" where
  "script excel_writer extract_table pages fs =
     script_with extract_table DataFrame (\<lambda>d index. Inr (to_csv d index)) excel_writer pages fs"

definition sheet_writer :: "dataframe \<Rightarrow> bool \<Rightarrow> py_error + sheet" where
  "sheet_writer d index = Inr (to_excel d index)"

text \<open>The lines of a text: the pieces that its line feeds end.\<close>

fun splitlines_aux :: "string \<Rightarrow> string \<Rightarrow> string list" where
  "splitlines_aux cur [] = (if cur = [] then [] else [cur])"
| "splitlines_aux cur (c # cs) =
     (if c = LF then cur # splitlines_aux [] cs else splitlines_aux (cur @ [c]) cs)"

definition splitlines :: "string \<Rightarrow> string list" where
  "splitlines s = splitlines_aux [] s"

text \<open>
  A row whose record \<^verbatim>\<open>csv.writer\<close> writes without quotes: no cell holds a comma, a
  double quote, a carriage return or a line feed, and the row is not one empty field.
\<close>

definition plain :: "row \<Rightarrow> bool" where
  "plain r = (list_all (\<lambda>c. \<not> list_ex special (cell_text c)) r \<and> map cell_text r \<noteq> [[]])"

text \<open>The number of line feeds inside the cells of a list of rows.\<close>

definition line_feeds :: "row list \<Rightarrow> nat" where
  "line_feeds rows = sum_list (map (\<lambda>r. sum_list (map (\<lambda>c. count_list (cell_text c) LF) r)) rows)"

section \<open>Facts about the aggregation\<close>

lemma extend_pages_concat:
  "extend_pages ext pages acc = acc @ concat (List.map_filter ext pages)"
proof (induction pages arbitrary: acc)
  case Nil
  show ?case by (simp add: List.map_filter_simps)
next
  case (Cons p ps)
  show ?case
  proof (cases "ext p")
    case None
    then show ?thesis by (simp add: Cons.IH truthy_def List.map_filter_simps)
  next
    case (Some rs)
    then show ?thesis by (simp add: Cons.IH truthy_def List.map_filter_simps)
  qed
qed

lemma extend_pages_append:
  "extend_pages ext (ps @ qs) acc = extend_pages ext qs (extend_pages ext ps acc)"
  by (induction ps arbitrary: acc) (simp_all add: Let_def split: option.splits)

lemma all_rows_Nil_iff:
  "all_rows ext pages = [] \<longleftrightarrow> (\<forall>page \<in> set pages. \<not> truthy (ext page))"
proof -
  have "extend_pages ext pages acc = [] \<longleftrightarrow> acc = [] \<and> (\<forall>page \<in> set pages. \<not> truthy (ext page))" for acc
    by (induction pages arbitrary: acc) (auto simp: truthy_def Let_def split: option.splits)
  then show ?thesis by (simp add: all_rows_def)
qed

section \<open>Facts about the structuring\<close>

lemma df_with_Nil: "df_with frame [] = Inl IndexError"
  by (simp add: df_with_def getitem_def)

lemma df_with_Cons: "df_with frame (header # data) = frame data header"
  by (simp add: df_with_def getitem_def)

lemma fold_width_ge: "k \<le> fold (\<lambda>r k. if k < length r then length r else k) data k"
proof (induction data arbitrary: k)
  case Nil
  show ?case by simp
next
  case (Cons r rs)
  have "k \<le> (if k < length r then length r else k)" by simp
  also have "\<dots> \<le> fold (\<lambda>r k. if k < length r then length r else k) rs (if k < length r then length r else k)"
    by (rule Cons.IH)
  finally show ?case by simp
qed

lemma fold_width_member:
  "r \<in> set data \<Longrightarrow> length r \<le> fold (\<lambda>r k. if k < length r then length r else k) data k"
proof (induction data arbitrary: k)
  case Nil
  then show ?case by simp
next
  case (Cons a rs)
  show ?case
  proof (cases "r = a")
    case True
    have "length a \<le> (if k < length a then length a else k)" by simp
    also have "\<dots> \<le> fold (\<lambda>r k. if k < length r then length r else k) rs (if k < length a then length a else k)"
      by (rule fold_width_ge)
    finally show ?thesis using True by simp
  next
    case False
    with Cons.prems have "r \<in> set rs" by simp
    then show ?thesis by (simp add: Cons.IH)
  qed
qed

lemma fold_width_attained:
  "fold (\<lambda>r k. if k < length r then length r else k) data k = k
   \<or> (\<exists>r \<in> set data. length r = fold (\<lambda>r k. if k < length r then length r else k) data k)"
proof (induction data arbitrary: k)
  case Nil
  show ?case by simp
next
  case (Cons a rs)
  from Cons.IH [of "if k < length a then length a else k"] show ?case
    by (auto split: if_splits)
qed

lemma width_member: "r \<in> set data \<Longrightarrow> length r \<le> width data"
  by (simp add: width_def fold_width_member)

lemma width_attained: "data \<noteq> [] \<Longrightarrow> \<exists>r \<in> set data. length r = width data"
proof -
  assume ne: "data \<noteq> []"
  from fold_width_attained [of data 0]
  consider "width data = 0" | "\<exists>r \<in> set data. length r = width data"
    by (auto simp: width_def)
  then show ?thesis
  proof cases
    case 1
    from ne obtain r where r: "r \<in> set data" by (cases data) auto
    with width_member [OF r] 1 have "length r = width data" by simp
    with r show ?thesis by blast
  next
    case 2
    then show ?thesis .
  qed
qed

text \<open>The width of a non-empty list of rows is the length of its longest row.\<close>

lemma width_eq_iff:
  "data \<noteq> [] \<Longrightarrow>
   width data = k \<longleftrightarrow> (\<exists>r \<in> set data. length r = k) \<and> (\<forall>r \<in> set data. length r \<le> k)"
proof
  assume "data \<noteq> []" and "width data = k"
  then show "(\<exists>r \<in> set data. length r = k) \<and> (\<forall>r \<in> set data. length r \<le> k)"
    using width_attained [of data] width_member [of _ data] by auto
next
  assume ne: "data \<noteq> []" and h: "(\<exists>r \<in> set data. length r = k) \<and> (\<forall>r \<in> set data. length r \<le> k)"
  from width_attained [OF ne] obtain r where r: "r \<in> set data" "length r = width data" by blast
  with h have "width data \<le> k" by auto
  moreover from h obtain q where "q \<in> set data" "length q = k" by blast
  then have "k \<le> width data" using width_member by auto
  ultimately show "width data = k" by simp
qed

lemma width_uniform:
  "data \<noteq> [] \<Longrightarrow> \<forall>r \<in> set data. length r = k \<Longrightarrow> width data = k"
  by (cases data) (auto simp: width_eq_iff)

lemma pad_same: "length r = k \<Longrightarrow> pad k r = r"
  by (simp add: pad_def)

lemma length_pad: "length r \<le> k \<Longrightarrow> length (pad k r) = k"
  by (simp add: pad_def)

lemma nth_pad: "j < k \<Longrightarrow> length r \<le> k \<Longrightarrow> pad k r ! j = (if j < length r then r ! j else None)"
  by (simp add: pad_def nth_append)

lemma DataFrame_uniform:
  "\<forall>r \<in> set data. length r = length cols \<Longrightarrow> DataFrame data cols = Inr \<lparr>columns = cols, records = data\<rparr>"
proof (cases "data = []")
  case True
  then show ?thesis by (simp add: DataFrame_def)
next
  case False
  assume u: "\<forall>r \<in> set data. length r = length cols"
  with False have w: "width data = length cols" by (simp add: width_uniform)
  have "map (pad (length cols)) data = data"
    using u by (simp add: map_idI pad_same)
  with False w show ?thesis by (simp add: DataFrame_def)
qed

lemma DataFrame_Inr:
  "DataFrame data cols = Inr d \<Longrightarrow>
   columns d = cols \<and> records d = map (pad (length cols)) data \<and> (\<forall>r \<in> set data. length r \<le> length cols)"
  by (auto simp: DataFrame_def width_member split: if_splits)

section \<open>Facts about the output\<close>

lemma script_failed:
  "df (all_rows ext pages) = Inl e \<Longrightarrow> script xw ext pages fs = (Some e, fs)"
  by (simp add: script_def script_with_def df_def)

lemma script_structured:
  "df (all_rows ext pages) = Inr d \<Longrightarrow>
   script xw ext pages fs = write_files (\<lambda>d index. Inr (to_csv d index)) xw d fs"
  by (simp add: script_def script_with_def df_def)

lemma write_files_csv:
  "usaid_defunded_csv (snd (write_files (\<lambda>d index. Inr (to_csv d index)) xw d fs)) = Some (to_csv d False)"
  by (simp add: write_files_def split: sum.splits)

lemma write_files_sheet:
  "write_files (\<lambda>d index. Inr (to_csv d index)) sheet_writer d fs =
     (None, fs\<lparr>usaid_defunded_csv := Some (to_csv d False),
               usaid_defunded_xlsx := Some (to_excel d False)\<rparr>)"
  by (simp add: write_files_def sheet_writer_def)








text \<open>Counting the lines of the comma-separated text.\<close>

lemma length_splitlines_aux_terminated:
  "length (splitlines_aux cur (s @ [LF])) = 1 + count_list s LF"
  by (induction s arbitrary: cur) simp_all

lemma length_splitlines_terminated:
  "length (splitlines (s @ [LF])) = 1 + count_list s LF"
  by (simp add: splitlines_def length_splitlines_aux_terminated)

lemma count_join: "count_list (join flds) LF = sum_list (map (\<lambda>f. count_list f LF) flds)"
  by (induction flds rule: join.induct) (simp_all add: LF_def comma_def)

lemma count_quoted: "count_list (quoted s) LF = count_list s LF"
proof -
  have "count_list (concat (map (\<lambda>c. if c = dquote then [dquote, dquote] else [c]) s)) LF = count_list s LF"
    by (induction s) (simp_all add: LF_def dquote_def)
  then show ?thesis by (simp add: quoted_def LF_def dquote_def)
qed

lemma count_csv_field: "count_list (csv_field s) LF = count_list s LF"
  by (simp add: csv_field_def count_quoted)

lemma writerow_terminated:
  "\<exists>body. writerow flds = body @ [LF] \<and> count_list body LF = sum_list (map (\<lambda>f. count_list f LF) flds)"
proof (cases "flds = [[]]")
  case True
  then show ?thesis by (simp add: writerow_def LF_def dquote_def)
next
  case False
  have "sum_list (map (\<lambda>f. count_list f LF) (map csv_field flds)) = sum_list (map (\<lambda>f. count_list f LF) flds)"
    by (induction flds) (simp_all add: count_csv_field)
  with False show ?thesis by (simp add: writerow_def count_join)
qed

lemma count_writerow:
  "count_list (writerow flds) LF = 1 + sum_list (map (\<lambda>f. count_list f LF) flds)"
  using writerow_terminated [of flds] by auto

lemma count_records:
  "count_list (concat (map (\<lambda>r. writerow (map cell_text r)) rows)) LF = length rows + line_feeds rows"
  by (induction rows) (simp_all add: line_feeds_def count_writerow comp_def)

lemma to_csv_records:
  "to_csv d False = concat (map (\<lambda>r. writerow (map cell_text r)) (columns d # records d))"
  by (simp add: to_csv_def comp_def)

lemma records_terminated:
  "rows \<noteq> [] \<Longrightarrow> \<exists>body. concat (map (\<lambda>r. writerow (map cell_text r)) rows) = body @ [LF]"
proof (induction rows rule: rev_induct)
  case Nil
  then show ?case by simp
next
  case (snoc r rs)
  from writerow_terminated [of "map cell_text r"] obtain b where "writerow (map cell_text r) = b @ [LF]"
    by blast
  then have "concat (map (\<lambda>r. writerow (map cell_text r)) (rs @ [r]))
      = (concat (map (\<lambda>r. writerow (map cell_text r)) rs) @ b) @ [LF]" by simp
  then show ?case by blast
qed

lemma length_lines_records:
  assumes "rows \<noteq> []"
  shows "length (splitlines (concat (map (\<lambda>r. writerow (map cell_text r)) rows))) = length rows + line_feeds rows"
proof -
  from records_terminated [OF assms] obtain body where
    b: "concat (map (\<lambda>r. writerow (map cell_text r)) rows) = body @ [LF]" by blast
  have "count_list (body @ [LF]) LF = length rows + line_feeds rows"
    using count_records [of rows] b by simp
  then have "1 + count_list body LF = length rows + line_feeds rows" by simp
  then show ?thesis by (simp add: b length_splitlines_terminated)
qed

lemma length_lines_to_csv:
  "length (splitlines (to_csv d False)) = 1 + length (records d) + line_feeds (columns d # records d)"
  using length_lines_records [of "columns d # records d"] by (simp add: to_csv_records)



















lemma concat_later_pages:
  assumes "\<forall>p \<in> set later. \<exists>t. ext p = Some t \<and> length t = R \<and> (\<forall>r \<in> set t. length r = K)"
  shows "length (concat (List.map_filter ext later)) = length later * R
       \<and> (\<forall>r \<in> set (concat (List.map_filter ext later)). length r = K)"
  using assms
proof (induction later)
  case Nil
  show ?case by simp
next
  case (Cons p ps)
  then obtain t where t: "ext p = Some t" "length t = R" "\<forall>r \<in> set t. length r = K"
    by auto
  from Cons have "length (concat (List.map_filter ext ps)) = length ps * R
       \<and> (\<forall>r \<in> set (concat (List.map_filter ext ps)). length r = K)" by simp
  with t show ?case by auto
qed

text \<open>The definitions that a run on a concrete document unfolds.\<close>

lemmas run_defs = all_rows_def truthy_def df_def df_with_def getitem_def DataFrame_def width_def
  pad_def script_def script_with_def write_files_def sheet_writer_def to_csv_def to_excel_def
  writerow_def csv_field_def special_def comma_def dquote_def CR_def LF_def cell_text_def
  xcell_of_def quoted_def splitlines_def plain_def

section \<open>The claims\<close>

text \<open>
  C1. The aggregated row set is the concatenation, in page order, of the rows of every
  detected table: pages without a table are skipped, and no row is dropped, added,
  repeated or moved.
\<close>

theorem all_rows_is_concatenation:
  "all_rows extract_table pages = spec_aggregate extract_table pages"
  by (simp add: all_rows_def spec_aggregate_def detected_tables_def extend_pages_concat)

text \<open>
  C2. For a non-empty aggregated row set, the structured table that line 12 builds has
  element 0 as its field names, in order, and one record per remaining element; the
  value of a record under the field at position j is the value at position j of its
  row (a missing value where the row is shorter). When every row is as long as the
  field names, the table is built and its records are the remaining elements as they
  are.
\<close>

theorem structured_table_header_and_records:
  assumes "rs = header # data"
  shows "(df rs = Inr d \<longrightarrow>
            columns d = header \<and> length (records d) = length data \<and>
            (\<forall>i < length data. length (records d ! i) = length header \<and>
               (\<forall>j < length header.
                  records d ! i ! j = (if j < length (data ! i) then data ! i ! j else None))))
       \<and> ((\<forall>r \<in> set data. length r = length header) \<longrightarrow>
            df rs = Inr \<lparr>columns = header, records = data\<rparr>)"
proof (intro conjI impI)
  assume "\<forall>r \<in> set data. length r = length header"
  then show "df rs = Inr \<lparr>columns = header, records = data\<rparr>"
    using assms by (simp add: df_def df_with_Cons DataFrame_uniform)
next
  assume ok: "df rs = Inr d"
  with assms have D: "DataFrame data header = Inr d" by (simp add: df_def df_with_Cons)
  note facts = DataFrame_Inr [OF D]
  from facts show "columns d = header" by simp
  from facts show "length (records d) = length data" by simp
  show "\<forall>i < length data. length (records d ! i) = length header \<and>
               (\<forall>j < length header.
                  records d ! i ! j = (if j < length (data ! i) then data ! i ! j else None))"
  proof (intro allI impI)
    fix i assume i: "i < length data"
    then have le: "length (data ! i) \<le> length header" using facts by simp
    have rec: "records d ! i = pad (length header) (data ! i)" using facts i by simp
    show "length (records d ! i) = length header \<and>
               (\<forall>j < length header.
                  records d ! i ! j = (if j < length (data ! i) then data ! i ! j else None))"
      using le rec by (simp add: length_pad nth_pad)
  qed
qed

theorem structured_table_header_and_records_witness:
  "[[Some ''Name'', Some ''Amount''], [Some ''A'', Some ''10'']]
     = [Some ''Name'', Some ''Amount''] # [[Some ''A'', Some ''10'']]
   \<and> df [[Some ''Name'', Some ''Amount''], [Some ''A'', Some ''10'']]
     = Inr \<lparr>columns = [Some ''Name'', Some ''Amount''], records = [[Some ''A'', Some ''10'']]\<rparr>"
proof -
  have h: "[[Some ''Name'', Some ''Amount''], [Some ''A'', Some ''10'']]
     = [Some ''Name'', Some ''Amount''] # [[Some ''A'', Some ''10'']]" by simp
  from structured_table_header_and_records [OF h] show ?thesis by simp
qed

text \<open>
  C3, as the code has it. A short row among the data rows does not stop the run: the
  rows [a, b], [x, y], [z] give a table whose second record is z with a missing value,
  and both files are written.
\<close>

theorem ragged_short_row_counterexample:
  "list_ex (\<lambda>r. length r \<noteq> length [Some ''a'', Some ''b'']) [[Some ''x'', Some ''y''], [Some ''z'']]
   \<and> all_rows (\<lambda>p. p) [Some [[Some ''a'', Some ''b''], [Some ''x'', Some ''y''], [Some ''z'']]]
       = [[Some ''a'', Some ''b''], [Some ''x'', Some ''y''], [Some ''z'']]
   \<and> df [[Some ''a'', Some ''b''], [Some ''x'', Some ''y''], [Some ''z'']]
       = Inr \<lparr>columns = [Some ''a'', Some ''b''], records = [[Some ''x'', Some ''y''], [Some ''z'', None]]\<rparr>
   \<and> script sheet_writer (\<lambda>p. p) [Some [[Some ''a'', Some ''b''], [Some ''x'', Some ''y''], [Some ''z'']]]
        \<lparr>usaid_defunded_csv = None, usaid_defunded_xlsx = None\<rparr>
       = (None, \<lparr>usaid_defunded_csv = Some ''a,b\<newline>x,y\<newline>z,\<newline>'',
                 usaid_defunded_xlsx = Some [[Str ''a'', Str ''b''], [Str ''x'', Str ''y''], [Str ''z'', Blank]]\<rparr>)"
  by (simp add: run_defs)

text \<open>
  C3, amended. For an aggregated row set with at least one data row, the structuring
  fails exactly when the longest data row is not as long as the header row, that is
  when some data row is longer than the header or every data row is shorter; the run
  then ends with that failure and leaves the files as they were. Otherwise the table
  is built, every shorter row filled up with missing values, and the comma-separated
  file is written.
\<close>

theorem structuring_fails_iff_widest_row_differs:
  assumes "all_rows extract_table pages = header # data" and "data \<noteq> []"
  shows "(df (all_rows extract_table pages) = Inl ValueError)
           = ((\<exists>r \<in> set data. length header < length r) \<or> (\<forall>r \<in> set data. length r < length header))
       \<and> ((\<exists>r \<in> set data. length header < length r) \<or> (\<forall>r \<in> set data. length r < length header)
            \<longrightarrow> script excel_writer extract_table pages fs = (Some ValueError, fs))
       \<and> ((\<exists>r \<in> set data. length r = length header) \<and> (\<forall>r \<in> set data. length r \<le> length header)
            \<longrightarrow> df (all_rows extract_table pages)
                   = Inr \<lparr>columns = header, records = map (pad (length header)) data\<rparr>
                \<and> usaid_defunded_csv (snd (script excel_writer extract_table pages fs))
                   = Some (to_csv \<lparr>columns = header, records = map (pad (length header)) data\<rparr> False))"
proof -
  let ?ok = "(\<exists>r \<in> set data. length r = length header) \<and> (\<forall>r \<in> set data. length r \<le> length header)"
  let ?bad = "(\<exists>r \<in> set data. length header < length r) \<or> (\<forall>r \<in> set data. length r < length header)"
  have w: "width data = length header \<longleftrightarrow> ?ok"
    using assms(2) by (rule width_eq_iff)
  have bad: "\<not> ?ok \<longleftrightarrow> ?bad"
    by (metis leD le_neq_implies_less linorder_le_less_linear)
  have D: "df (all_rows extract_table pages) = DataFrame data header"
    using assms(1) by (simp add: df_def df_with_Cons)
  have c1: "(df (all_rows extract_table pages) = Inl ValueError) = ?bad"
    using w bad assms(2) by (auto simp: D DataFrame_def)
  have c2: "script excel_writer extract_table pages fs = (Some ValueError, fs)" if ?bad
  proof -
    from that c1 have "df (all_rows extract_table pages) = Inl ValueError" by blast
    then show ?thesis by (rule script_failed)
  qed
  have c3: "df (all_rows extract_table pages)
                   = Inr \<lparr>columns = header, records = map (pad (length header)) data\<rparr>
                \<and> usaid_defunded_csv (snd (script excel_writer extract_table pages fs))
                   = Some (to_csv \<lparr>columns = header, records = map (pad (length header)) data\<rparr> False)"
    if ?ok
  proof -
    from that w assms(2)
    have ok: "df (all_rows extract_table pages)
                = Inr \<lparr>columns = header, records = map (pad (length header)) data\<rparr>"
      by (simp add: D DataFrame_def)
    then show ?thesis
      by (simp add: script_structured [OF ok] write_files_csv)
  qed
  from c1 c2 c3 show ?thesis by blast
qed

theorem structuring_fails_iff_widest_row_differs_witness:
  "all_rows (\<lambda>p. p) [Some [[Some ''a'', Some ''b''], [Some ''x'', Some ''y'', Some ''w''], [Some ''z'']]]
     = [Some ''a'', Some ''b''] # [[Some ''x'', Some ''y'', Some ''w''], [Some ''z'']]
   \<and> [[Some ''x'', Some ''y'', Some ''w''], [Some ''z'']] \<noteq> ([] :: row list)
   \<and> script sheet_writer (\<lambda>p. p)
        [Some [[Some ''a'', Some ''b''], [Some ''x'', Some ''y'', Some ''w''], [Some ''z'']]]
        \<lparr>usaid_defunded_csv = None, usaid_defunded_xlsx = None\<rparr>
       = (Some ValueError, \<lparr>usaid_defunded_csv = None, usaid_defunded_xlsx = None\<rparr>)"
proof -
  have h1: "all_rows (\<lambda>p. p) [Some [[Some ''a'', Some ''b''], [Some ''x'', Some ''y'', Some ''w''], [Some ''z'']]]
     = [Some ''a'', Some ''b''] # [[Some ''x'', Some ''y'', Some ''w''], [Some ''z'']]"
    by (simp add: all_rows_def truthy_def)
  have h2: "[[Some ''x'', Some ''y'', Some ''w''], [Some ''z'']] \<noteq> ([] :: row list)" by simp
  from structuring_fails_iff_widest_row_differs [OF h1 h2, of sheet_writer
      "\<lparr>usaid_defunded_csv = None, usaid_defunded_xlsx = None\<rparr>"] h1
  show ?thesis by simp
qed

text \<open>
  C4. When no page yields a detected table the aggregated row set is empty, line 12
  raises \<^verbatim>\<open>IndexError\<close> at \<^verbatim>\<open>all_rows[0]\<close> before the data frame constructor is
  called, and the run ends there with the files as they were, whatever the data frame
  library and the writers do.
\<close>

theorem no_table_fails_at_structuring:
  assumes "\<forall>page \<in> set pages. \<not> truthy (extract_table page)"
  shows "all_rows extract_table pages = []
       \<and> df_with frame (all_rows extract_table pages) = Inl IndexError
       \<and> script_with extract_table frame csv_writer excel_writer pages fs = (Some IndexError, fs)
       \<and> script excel_writer' extract_table pages fs' = (Some IndexError, fs')"
proof -
  from assms have e: "all_rows extract_table pages = []" by (simp add: all_rows_Nil_iff)
  then show ?thesis by (simp add: script_def script_with_def df_with_Nil)
qed

theorem no_table_fails_at_structuring_witness:
  "\<not> truthy None \<and> \<not> truthy (Some [])
   \<and> script sheet_writer (\<lambda>p. p) [None, Some []] \<lparr>usaid_defunded_csv = None, usaid_defunded_xlsx = None\<rparr>
       = (Some IndexError, \<lparr>usaid_defunded_csv = None, usaid_defunded_xlsx = None\<rparr>)"
proof -
  have h: "\<forall>page \<in> set [None, Some []]. \<not> truthy ((\<lambda>p. p) page)"
    by (simp add: truthy_def)
  have t: "\<not> truthy None \<and> \<not> truthy (Some [])"
    by (simp add: truthy_def)
  from no_table_fails_at_structuring [OF h]
  have "script sheet_writer (\<lambda>p. p) [None, Some []] \<lparr>usaid_defunded_csv = None, usaid_defunded_xlsx = None\<rparr>
       = (Some IndexError, \<lparr>usaid_defunded_csv = None, usaid_defunded_xlsx = None\<rparr>)"
    by blast
  with t show ?thesis by simp
qed

text \<open>
  C5. The two-page scenario: page 1 gives the table Name, Amount / A, 10 and page 2 the
  table B, 20. The aggregate is the three rows in that order, the structured table has
  the field names Name, Amount and the records A, 10 and B, 20, and the comma-separated
  file holds the three lines Name,Amount / A,10 / B,20, each ended by a line feed.
\<close>

theorem scenario_two_pages:
  "all_rows (\<lambda>p. p)
      [Some [[Some ''Name'', Some ''Amount''], [Some ''A'', Some ''10'']], Some [[Some ''B'', Some ''20'']]]
     = [[Some ''Name'', Some ''Amount''], [Some ''A'', Some ''10''], [Some ''B'', Some ''20'']]
   \<and> df [[Some ''Name'', Some ''Amount''], [Some ''A'', Some ''10''], [Some ''B'', Some ''20'']]
     = Inr \<lparr>columns = [Some ''Name'', Some ''Amount''],
            records = [[Some ''A'', Some ''10''], [Some ''B'', Some ''20'']]\<rparr>
   \<and> map (zip [Some ''Name'', Some ''Amount'']) [[Some ''A'', Some ''10''], [Some ''B'', Some ''20'']]
     = [[(Some ''Name'', Some ''A''), (Some ''Amount'', Some ''10'')],
        [(Some ''Name'', Some ''B''), (Some ''Amount'', Some ''20'')]]
   \<and> usaid_defunded_csv (snd (script excel_writer (\<lambda>p. p)
      [Some [[Some ''Name'', Some ''Amount''], [Some ''A'', Some ''10'']], Some [[Some ''B'', Some ''20'']]] fs))
     = Some ''Name,Amount\<newline>A,10\<newline>B,20\<newline>''
   \<and> script sheet_writer (\<lambda>p. p)
      [Some [[Some ''Name'', Some ''Amount''], [Some ''A'', Some ''10'']], Some [[Some ''B'', Some ''20'']]] fs'
     = (None, fs'\<lparr>usaid_defunded_csv := Some ''Name,Amount\<newline>A,10\<newline>B,20\<newline>'',
                 usaid_defunded_xlsx := Some [[Str ''Name'', Str ''Amount''], [Str ''A'', Str ''10''],
                                              [Str ''B'', Str ''20'']]\<rparr>)"
  by (simp add: run_defs split: sum.splits)




text \<open>
  C8, as the code has it. When every page's table starts with its own header row, the
  header rows of the later pages become records: two pages that each hold the table
  Name, Amount with one data row give three records, not two.
\<close>

theorem repeated_header_counterexample:
  "df (all_rows (\<lambda>p. p)
        [Some [[Some ''Name'', Some ''Amount''], [Some ''A'', Some ''10'']],
         Some [[Some ''Name'', Some ''Amount''], [Some ''B'', Some ''20'']]])
     = Inr \<lparr>columns = [Some ''Name'', Some ''Amount''],
            records = [[Some ''A'', Some ''10''], [Some ''Name'', Some ''Amount''], [Some ''B'', Some ''20'']]\<rparr>
   \<and> length [[Some ''A'', Some ''10''], [Some ''Name'', Some ''Amount''], [Some ''B'', Some (''20''::string)]]
       \<noteq> length [Some [[Some ''Name'', Some ''Amount''], [Some ''A'', Some ''10'']],
         Some [[Some ''Name'', Some ''Amount''], [Some ''B'', Some (''20''::string)]]] * 1
   \<and> script sheet_writer (\<lambda>p. p)
        [Some [[Some ''Name'', Some ''Amount''], [Some ''A'', Some ''10'']],
         Some [[Some ''Name'', Some ''Amount''], [Some ''B'', Some ''20'']]]
        \<lparr>usaid_defunded_csv = None, usaid_defunded_xlsx = None\<rparr>
     = (None, \<lparr>usaid_defunded_csv = Some ''Name,Amount\<newline>A,10\<newline>Name,Amount\<newline>B,20\<newline>'',
               usaid_defunded_xlsx = Some [[Str ''Name'', Str ''Amount''], [Str ''A'', Str ''10''],
                                           [Str ''Name'', Str ''Amount''], [Str ''B'', Str ''20'']]\<rparr>)"
  by (simp add: run_defs)

text \<open>
  C8, amended. For a document of N pages, N at least 1, in which the table of the first
  page is a header row followed by R data rows and the table of every later page is R
  data rows without a header row, every row K cells wide: the structured table has
  N * R records and K columns; the comma-separated file is the header record followed
  by the N * R records, of K values each, on 1 + N * R lines and one more for every
  line feed inside a cell; and the sheet given to the spreadsheet writer has the
  header row and N * R rows below it, every row K cells wide.

  The theorem takes the number of rows of the later pages' tables as a parameter R' of
  its own: the table has R + (N - 1) * R' records. With R' = R this is the statement
  above; with R' = R + 1, the later tables being a header row and R data rows as well,
  it has N * R + N - 1 records.
\<close>

theorem continued_table_record_count:
  assumes "pages = first # later"
    and "extract_table first = Some (header # rows1)"
    and "length header = K" and "length rows1 = R" and "\<forall>r \<in> set rows1. length r = K"
    and "\<forall>p \<in> set later. \<exists>t. extract_table p = Some t \<and> length t = R' \<and> (\<forall>r \<in> set t. length r = K)"
  shows "\<exists>d. df (all_rows extract_table pages) = Inr d
           \<and> columns d = header \<and> length (columns d) = K
           \<and> (\<forall>r \<in> set (records d). length r = K)
           \<and> length (records d) = R + length later * R'
           \<and> (R' = R \<longrightarrow>
                length (records d) = length pages * R
              \<and> length (splitlines (to_csv d False))
                  = 1 + length pages * R + line_feeds (header # records d)
              \<and> length (to_excel d False) = 1 + length pages * R)
           \<and> (R' = R + 1 \<longrightarrow> length (records d) = length pages * R + length pages - 1)
           \<and> usaid_defunded_csv (snd (script excel_writer extract_table pages fs)) = Some (to_csv d False)
           \<and> to_csv d False = concat (map (\<lambda>r. writerow (map cell_text r)) (header # records d))
           \<and> length (splitlines (to_csv d False))
               = 1 + length (records d) + line_feeds (header # records d)
           \<and> script sheet_writer extract_table pages fs'
               = (None, fs'\<lparr>usaid_defunded_csv := Some (to_csv d False),
                            usaid_defunded_xlsx := Some (to_excel d False)\<rparr>)
           \<and> length (to_excel d False) = 1 + length (records d)
           \<and> list_all (\<lambda>r. length r = K) (to_excel d False)"
proof -
  let ?rest = "concat (List.map_filter extract_table later)"
  let ?data = "rows1 @ ?rest"
  let ?d = "\<lparr>columns = header, records = ?data\<rparr>"
  from concat_later_pages [OF assms(6)]
  have rest: "length ?rest = length later * R'" "\<forall>r \<in> set ?rest. length r = K" by simp_all
  have agg: "all_rows extract_table pages = header # ?data"
    using assms(1,2) by (simp add: all_rows_def extend_pages_concat)
  have u: "\<forall>r \<in> set ?data. length r = length header"
    using assms(3,5) rest(2) by auto
  have d: "df (all_rows extract_table pages) = Inr ?d"
    using agg DataFrame_uniform [OF u] by (simp add: df_def df_with_Cons)
  have n: "length (records ?d) = R + length later * R'"
    using assms(4) rest(1) by simp
  have wide: "\<forall>r \<in> set (records ?d). length r = K"
    using u assms(3) by simp
  have nR: "length (records ?d) = length pages * R" if "R' = R"
    using n that assms(1) by simp
  have nH: "length (records ?d) = length pages * R + length pages - 1" if "R' = R + 1"
    using n that assms(1) by simp
  have csv: "usaid_defunded_csv (snd (script excel_writer extract_table pages fs)) = Some (to_csv ?d False)"
    by (simp add: script_structured [OF d] write_files_csv)
  have recs: "to_csv ?d False = concat (map (\<lambda>r. writerow (map cell_text r)) (header # records ?d))"
    using to_csv_records [of ?d] by simp
  have len: "length (splitlines (to_csv ?d False))
               = 1 + length (records ?d) + line_feeds (header # records ?d)"
    using length_lines_to_csv [of ?d] by simp
  have run: "script sheet_writer extract_table pages fs'
               = (None, fs'\<lparr>usaid_defunded_csv := Some (to_csv ?d False),
                            usaid_defunded_xlsx := Some (to_excel ?d False)\<rparr>)"
    by (simp add: script_structured [OF d] write_files_sheet)
  have xl: "length (to_excel ?d False) = 1 + length (records ?d)"
    by (simp add: to_excel_def)
  have xw: "list_all (\<lambda>r. length r = K) (to_excel ?d False)"
    using wide assms(3) by (auto simp: to_excel_def list_all_iff)
  have c0: "columns ?d = header \<and> length (columns ?d) = K" using assms(3) by simp
  have cR: "length (records ?d) = length pages * R
              \<and> length (splitlines (to_csv ?d False))
                  = 1 + length pages * R + line_feeds (header # records ?d)
              \<and> length (to_excel ?d False) = 1 + length pages * R" if "R' = R"
    using nR [OF that] len xl by simp
  show ?thesis
    by (rule exI [of _ ?d]) (use d c0 wide n cR nH csv recs len run xl xw in blast)
qed

theorem continued_table_record_count_witness:
  "df (all_rows (\<lambda>p. p)
        [Some [[Some ''Name'', Some ''Amount''], [Some ''A'', Some ''10'']], Some [[Some ''B'', Some ''20'']]])
     = Inr \<lparr>columns = [Some ''Name'', Some ''Amount''],
            records = [[Some ''A'', Some ''10''], [Some ''B'', Some ''20'']]\<rparr>
   \<and> length (records \<lparr>columns = [Some ''Name'', Some ''Amount''],
                    records = [[Some ''A'', Some ''10''], [Some ''B'', Some ''20'']]\<rparr>) = 2 * 1
   \<and> length (to_excel \<lparr>columns = [Some ''Name'', Some ''Amount''],
                    records = [[Some ''A'', Some ''10''], [Some ''B'', Some ''20'']]\<rparr> False) = 1 + 2 * 1
   \<and> length (splitlines (to_csv \<lparr>columns = [Some ''Name'', Some ''Amount''],
                    records = [[Some ''A'', Some ''10''], [Some ''B'', Some ''20'']]\<rparr> False)) = 1 + 2 * 1"
proof -
  have h1: "[Some [[Some ''Name'', Some ''Amount''], [Some ''A'', Some ''10'']], Some [[Some ''B'', Some ''20'']]]
     = Some [[Some ''Name'', Some ''Amount''], [Some ''A'', Some ''10'']] # [Some [[Some ''B'', Some ''20'']]]"
    by simp
  have h2: "(\<lambda>p. p) (Some [[Some ''Name'', Some ''Amount''], [Some ''A'', Some ''10'']])
     = Some ([Some ''Name'', Some ''Amount''] # [[Some ''A'', Some ''10'']])" by simp
  have h3: "length [Some ''Name'', Some ''Amount''] = 2" by simp
  have h4: "length [[Some ''A'', Some ''10'']] = 1" by simp
  have h5: "\<forall>r \<in> set [[Some ''A'', Some ''10'']]. length r = 2" by simp
  have h6: "\<forall>p \<in> set [Some [[Some ''B'', Some ''20'']]].
      \<exists>t. (\<lambda>p. p) p = Some t \<and> length t = 1 \<and> (\<forall>r \<in> set t. length r = 2)" by simp
  have v: "df (all_rows (\<lambda>p. p)
        [Some [[Some ''Name'', Some ''Amount''], [Some ''A'', Some ''10'']], Some [[Some ''B'', Some ''20'']]])
     = Inr \<lparr>columns = [Some ''Name'', Some ''Amount''],
            records = [[Some ''A'', Some ''10''], [Some ''B'', Some ''20'']]\<rparr>"
    by (simp add: run_defs)
  have l: "line_feeds [[Some ''Name'', Some ''Amount''], [Some ''A'', Some ''10''], [Some ''B'', Some ''20'']] = 0"
    by (simp add: line_feeds_def cell_text_def LF_def)
  from continued_table_record_count [OF h1 h2 h3 h4 h5 h6, of sheet_writer
      "\<lparr>usaid_defunded_csv = None, usaid_defunded_xlsx = None\<rparr>"
      "\<lparr>usaid_defunded_csv = None, usaid_defunded_xlsx = None\<rparr>"]
  obtain d where d: "df (all_rows (\<lambda>p. p)
        [Some [[Some ''Name'', Some ''Amount''], [Some ''A'', Some ''10'']], Some [[Some ''B'', Some ''20'']]])
      = Inr d"
    and r: "length (records d) = 2 * 1"
    and x: "length (to_excel d False) = 1 + 2 * 1"
    and s: "length (splitlines (to_csv d False))
        = 1 + 2 * 1 + line_feeds ([Some ''Name'', Some ''Amount''] # records d)"
    by auto
  from d v have e: "d = \<lparr>columns = [Some ''Name'', Some ''Amount''],
            records = [[Some ''A'', Some ''10''], [Some ''B'', Some ''20'']]\<rparr>" by simp
  from r x s l v show ?thesis unfolding e by simp
qed

text \<open>
  C9, as the code has it. An aggregate that is one row is a header with no data rows:
  the data frame is built with no record, and both files are written, the
  comma-separated one holding the header line only.
\<close>

theorem header_only_counterexample:
  "all_rows (\<lambda>p. p) [Some [[Some ''Name'', Some ''Amount'']]] = [[Some ''Name'', Some ''Amount'']]
   \<and> df [[Some ''Name'', Some ''Amount'']] = Inr \<lparr>columns = [Some ''Name'', Some ''Amount''], records = []\<rparr>
   \<and> script sheet_writer (\<lambda>p. p) [Some [[Some ''Name'', Some ''Amount'']]]
        \<lparr>usaid_defunded_csv = None, usaid_defunded_xlsx = None\<rparr>
       = (None, \<lparr>usaid_defunded_csv = Some ''Name,Amount\<newline>'',
                 usaid_defunded_xlsx = Some [[Str ''Name'', Str ''Amount'']]\<rparr>)"
  by (simp add: run_defs)

text \<open>
  C9, amended. When the aggregate is a single row, the structuring succeeds with that
  row as the field names and no record, and the comma-separated file is written with
  the header record as its only content; with a spreadsheet writer that stores the
  sheet, the run ends without failure and the sheet holds the header row only.
\<close>

theorem header_only_succeeds:
  assumes "all_rows extract_table pages = [header]"
  shows "df (all_rows extract_table pages) = Inr \<lparr>columns = header, records = []\<rparr>
       \<and> usaid_defunded_csv (snd (script excel_writer extract_table pages fs))
           = Some (writerow (map cell_text header))
       \<and> script sheet_writer extract_table pages fs' =
           (None, fs'\<lparr>usaid_defunded_csv := Some (writerow (map cell_text header)),
                      usaid_defunded_xlsx := Some [map xcell_of header]\<rparr>)"
proof -
  have d: "df (all_rows extract_table pages) = Inr \<lparr>columns = header, records = []\<rparr>"
    using assms by (simp add: df_def df_with_Cons DataFrame_def)
  have c: "to_csv \<lparr>columns = header, records = []\<rparr> False = writerow (map cell_text header)"
    by (simp add: to_csv_def)
  have x: "to_excel \<lparr>columns = header, records = []\<rparr> False = [map xcell_of header]"
    by (simp add: to_excel_def)
  from d c x show ?thesis
    by (simp add: script_structured [OF d] write_files_csv write_files_sheet)
qed

theorem header_only_succeeds_witness:
  "all_rows (\<lambda>p. p) [None, Some [[Some ''Name'', Some ''Amount'']], Some []]
     = [[Some ''Name'', Some ''Amount'']]
   \<and> script sheet_writer (\<lambda>p. p) [None, Some [[Some ''Name'', Some ''Amount'']], Some []]
        \<lparr>usaid_defunded_csv = None, usaid_defunded_xlsx = None\<rparr>
       = (None, \<lparr>usaid_defunded_csv = Some ''Name,Amount\<newline>'',
                 usaid_defunded_xlsx = Some [[Str ''Name'', Str ''Amount'']]\<rparr>)"
proof -
  have h: "all_rows (\<lambda>p. p) [None, Some [[Some ''Name'', Some ''Amount'']], Some []]
     = [[Some ''Name'', Some ''Amount'']]"
    by (simp add: all_rows_def truthy_def)
  from header_only_succeeds [OF h, of sheet_writer
      "\<lparr>usaid_defunded_csv = None, usaid_defunded_xlsx = None\<rparr>"
      "\<lparr>usaid_defunded_csv = None, usaid_defunded_xlsx = None\<rparr>"] h
  show ?thesis
    by (simp add: writerow_def csv_field_def special_def comma_def dquote_def CR_def LF_def
        cell_text_def xcell_of_def)
qed

text \<open>
  C10. A page whose extraction returns the empty list of rows counts as a page with no
  table: the aggregate is the one obtained when the detector answers \<^verbatim>\<open>None\<close> for
  that page, and it is the aggregate of the document without that page.
\<close>

theorem empty_table_like_no_table:
  assumes "extract_table page = Some []"
  shows "all_rows extract_table pages = all_rows (extract_table(page := None)) pages
       \<and> all_rows extract_table (before @ page # after) = all_rows extract_table (before @ after)"
proof
  have "extend_pages extract_table pages acc = extend_pages (extract_table(page := None)) pages acc"
    for acc
    using assms
    by (induction pages arbitrary: acc) (simp_all add: truthy_def Let_def split: option.splits)
  then show "all_rows extract_table pages = all_rows (extract_table(page := None)) pages"
    by (simp add: all_rows_def)
next
  have "extend_pages extract_table (page # after) acc = extend_pages extract_table after acc" for acc
    using assms by (simp add: truthy_def)
  then show "all_rows extract_table (before @ page # after) = all_rows extract_table (before @ after)"
    by (simp add: all_rows_def extend_pages_append)
qed

theorem empty_table_like_no_table_witness:
  "(\<lambda>p. p) (Some ([] :: table)) = Some []
   \<and> all_rows (\<lambda>p. p) ([Some [[Some ''a'']]] @ Some [] # [Some [[Some ''b'']]])
     = all_rows (\<lambda>p. p) ([Some [[Some ''a'']]] @ [Some [[Some ''b'']]])
   \<and> all_rows (\<lambda>p. p) ([Some [[Some ''a'']]] @ Some [] # [Some [[Some ''b'']]])
     = [[Some ''a''], [Some ''b'']]"
proof -
  have h: "(\<lambda>p. p) (Some ([] :: table)) = Some []" by simp
  have v: "all_rows (\<lambda>p. p) ([Some [[Some ''a'']]] @ [Some [[Some ''b'']]]) = [[Some ''a''], [Some ''b'']]"
    by (simp add: all_rows_def truthy_def)
  from empty_table_like_no_table [of "\<lambda>p. p" "Some []" "[Some [[Some ''a'']]]"
      "[Some [[Some ''a'']]]" "[Some [[Some ''b'']]]"] h v
  show ?thesis by simp
qed

end
